theory Spec2Isabelle
  imports Complex_Main "HOL-Library.Word" "HOL-Library.Sublist"
begin

section \<open>Values of the program\<close>

text \<open>
  The program is \<^verbatim>\<open>pva_broadcast.py\<close>: a loop that receives seven-part ZeroMQ messages,
  decodes each into a dictionary \<^verbatim>\<open>data_obj\<close>, skips control frames, and hands every other
  frame to \<^verbatim>\<open>TomoStreamPVASet.broadcast_image\<close>, which calls \<^verbatim>\<open>frameProducer\<close> on one of
  the PVA broadcasters and \<^verbatim>\<open>epics.caput\<close> on three process variables.

  A Python \<^verbatim>\<open>bytes\<close> object is a list of 8-bit characters. A Python \<^verbatim>\<open>str\<close> is represented
  by its UTF-8 encoding, which is one-to-one on the strings that \<^verbatim>\<open>bytes.decode()\<close> can
  return; the separators and literals the program uses are all ASCII, and an ASCII byte
  never occurs inside a multi-byte UTF-8 sequence, so splitting and comparing on the
  encoding is splitting and comparing on the string.
\<close>

type_synonym bytes = string

text \<open>The exceptions that the modelled code can raise; all are subclasses of \<^verbatim>\<open>Exception\<close>.\<close>

datatype py_error =
    ValueError
  | IndexError
  | TypeError
  | KeyError string
  | UnboundLocalError
  | ZeroDivisionError
  | OverflowError
  | UnicodeDecodeError

text \<open>
  A Python \<^verbatim>\<open>float\<close> is an IEEE 754 binary64 value: a finite value is kept as its sign
  (\<open>True\<close> for negative, so that \<open>-0.0\<close> differs from \<open>0.0\<close>) and its exact rational
  magnitude.
\<close>

datatype pyfloat = Fin bool rat | Infty bool | NaN

text \<open>
  The values that reach the sinks: \<^verbatim>\<open>columns\<close> and \<^verbatim>\<open>rows\<close> are either strings taken from
  the parameter dictionary or the integer 0 of the fallback return.
\<close>

datatype pyval = PyInt int | PyStr string | PyFloat pyfloat

text \<open>
  A numpy array of big-endian unsigned 16-bit values in C order: its shape and its
  elements in row-major sequence.
\<close>

record ndarray3 =
  shape3 :: "nat \<times> nat \<times> nat"
  data3 :: "16 word list"

record ndarray2 =
  shape2 :: "nat \<times> nat"
  data2 :: "16 word list"

text \<open>The seven parts of one message, in the order \<^verbatim>\<open>read\<close> receives them.\<close>

record raw_message =
  msg_start :: bytes
  msg_image :: bytes
  msg_info :: bytes
  msg_h5_file :: bytes
  msg_tif_file :: bytes
  msg_params :: bytes
  msg_end :: bytes

text \<open>The dictionary \<^verbatim>\<open>data_obj\<close> that \<^verbatim>\<open>read\<close> returns, after its two decoded entries are stored.\<close>

record data_obj =
  obj_start :: bytes
  obj_image :: ndarray3
  obj_info :: "32 word list"
  obj_h5_file :: bytes
  obj_tif_file :: bytes
  obj_params :: bytes
  obj_end :: bytes

text \<open>\<^verbatim>\<open>read\<close> returns either the dictionary or the pair \<^verbatim>\<open>(None, None)\<close>.\<close>

datatype read_result = DataObj data_obj | NonePair

type_synonym param_dict = "string \<rightharpoonup> string"

text \<open>The four broadcasters of \<^verbatim>\<open>TomoStreamPVASet\<close>.\<close>

datatype broadcaster = data_broadcast | dark_broadcast | white_broadcast | theta_broadcast


section \<open>ReadBCSTomoData\<close>

subsection \<open>numpy: frombuffer, reshape, indexing\<close>

text \<open>\<^verbatim>\<open>np.frombuffer(buf, dtype=">u2")\<close>: pairs of bytes, most significant first.\<close>

fun be_u2 :: "bytes \<Rightarrow> 16 word list" where
  "be_u2 (a # b # rest) = word_of_nat (of_char a * 256 + of_char b) # be_u2 rest"
| "be_u2 rest = []"

definition frombuffer_u2 :: "bytes \<Rightarrow> py_error + 16 word list" where
  "frombuffer_u2 buf = (if length buf mod 2 \<noteq> 0 then Inl ValueError else Inr (be_u2 buf))"

text \<open>\<^verbatim>\<open>np.frombuffer(buf, dtype=">u4")\<close>: groups of four bytes, most significant first.\<close>

fun be_u4 :: "bytes \<Rightarrow> 32 word list" where
  "be_u4 (a # b # c # d # rest) =
     word_of_nat (((of_char a * 256 + of_char b) * 256 + of_char c) * 256 + of_char d) # be_u4 rest"
| "be_u4 rest = []"

definition frombuffer_u4 :: "bytes \<Rightarrow> py_error + 32 word list" where
  "frombuffer_u4 buf = (if length buf mod 4 \<noteq> 0 then Inl ValueError else Inr (be_u4 buf))"

text \<open>\<^verbatim>\<open>a.reshape((n, h, w))\<close> of a one-dimensional array: the sizes must agree.\<close>

definition reshape :: "16 word list \<Rightarrow> nat \<times> nat \<times> nat \<Rightarrow> py_error + ndarray3" where
  "reshape a shp =
     (case shp of (n, h, w) \<Rightarrow>
        if n * h * w = length a then Inr \<lparr>shape3 = shp, data3 = a\<rparr> else Inl ValueError)"

text \<open>\<^verbatim>\<open>a[0, ...]\<close>: the first plane of a three-dimensional array.\<close>

definition first_plane :: "ndarray3 \<Rightarrow> py_error + ndarray2" where
  "first_plane a =
     (case shape3 a of (n, h, w) \<Rightarrow>
        if n = 0 then Inl IndexError
        else Inr \<lparr>shape2 = (h, w), data2 = take (h * w) (data3 a)\<rparr>)"

text \<open>\<^verbatim>\<open>a[i]\<close> on a one-dimensional array, for \<open>i \<ge> 0\<close>.\<close>

definition item :: "'a list \<Rightarrow> nat \<Rightarrow> py_error + 'a" where
  "item a i = (if i < length a then Inr (a ! i) else Inl IndexError)"

text \<open>Element \<open>(r, c)\<close> of a two-dimensional array in C order.\<close>

definition at2 :: "ndarray2 \<Rightarrow> nat \<Rightarrow> nat \<Rightarrow> 16 word" where
  "at2 a r c = data2 a ! (r * snd (shape2 a) + c)"

subsection \<open>read\<close>

definition START_TAG :: bytes where
  "START_TAG = ''[start]''"

definition END_TAG :: bytes where
  "END_TAG = ''[end]''"

text \<open>
  The seven \<^verbatim>\<open>sock_recv\<close> calls are the seven fields of the message. Both buffers are
  decoded and the image is reshaped before the tags are looked at; \<^verbatim>\<open>info[1]\<close> and
  \<^verbatim>\<open>info[0]\<close> are read for the shape.
\<close>

definition read :: "raw_message \<Rightarrow> py_error + read_result" where
  "read m =
     (case frombuffer_u4 (drop 4 (msg_info m)) of
        Inl e \<Rightarrow> Inl e
      | Inr info \<Rightarrow>
     (case frombuffer_u2 (drop 4 (msg_image m)) of
        Inl e \<Rightarrow> Inl e
      | Inr img \<Rightarrow>
     (case item info 1 of
        Inl e \<Rightarrow> Inl e
      | Inr info1 \<Rightarrow>
     (case item info 0 of
        Inl e \<Rightarrow> Inl e
      | Inr info0 \<Rightarrow>
     (case reshape img (1, unat info1, unat info0) of
        Inl e \<Rightarrow> Inl e
      | Inr image3 \<Rightarrow>
        if prefix START_TAG (msg_start m) \<and> prefix END_TAG (msg_end m)
        then Inr (DataObj \<lparr>obj_start = msg_start m, obj_image = image3, obj_info = info,
               obj_h5_file = msg_h5_file m, obj_tif_file = msg_tif_file m,
               obj_params = msg_params m, obj_end = msg_end m\<rparr>)
        else Inr NonePair)))))"

subsection \<open>The frame tests\<close>

definition is_final :: "data_obj \<Rightarrow> bool" where
  "is_final d = prefix ''-writedone'' (obj_params d)"

definition is_delete :: "data_obj \<Rightarrow> bool" where
  "is_delete d = prefix ''-delete'' (obj_params d)"

definition is_garbage :: "data_obj \<Rightarrow> bool" where
  "is_garbage d = prefix ''meta data'' (obj_params d)"

definition is_null_frame :: "data_obj \<Rightarrow> bool" where
  "is_null_frame d =
     (case shape3 (obj_image d) of (n, h, w) \<Rightarrow> h + w \<le> 3)"

subsection \<open>params_to_dict\<close>

text \<open>
  \<^verbatim>\<open>bytes.decode()\<close> is strict UTF-8: well-formed sequences only, with no overlong form,
  no surrogate and nothing above U+10FFFF; anything else raises \<^verbatim>\<open>UnicodeDecodeError\<close>.
\<close>

definition byte_in :: "nat \<Rightarrow> nat \<Rightarrow> char \<Rightarrow> bool" where
  "byte_in lo hi c = (lo \<le> of_char c \<and> of_char c \<le> hi)"

fun utf8_valid :: "bytes \<Rightarrow> bool" where
  "utf8_valid [] = True"
| "utf8_valid [a] = byte_in 0x00 0x7F a"
| "utf8_valid [a, b] =
     (if byte_in 0x00 0x7F a then utf8_valid [b]
      else byte_in 0xC2 0xDF a \<and> byte_in 0x80 0xBF b)"
| "utf8_valid [a, b, c] =
     (if byte_in 0x00 0x7F a then utf8_valid [b, c]
      else if byte_in 0xC2 0xDF a then byte_in 0x80 0xBF b \<and> utf8_valid [c]
      else (byte_in 0xE0 0xE0 a \<and> byte_in 0xA0 0xBF b
            \<or> byte_in 0xE1 0xEC a \<and> byte_in 0x80 0xBF b
            \<or> byte_in 0xED 0xED a \<and> byte_in 0x80 0x9F b
            \<or> byte_in 0xEE 0xEF a \<and> byte_in 0x80 0xBF b)
           \<and> byte_in 0x80 0xBF c)"
| "utf8_valid (a # b # c # d # rest) =
     (if byte_in 0x00 0x7F a then utf8_valid (b # c # d # rest)
      else if byte_in 0xC2 0xDF a then byte_in 0x80 0xBF b \<and> utf8_valid (c # d # rest)
      else if byte_in 0xE0 0xEF a then
        (byte_in 0xE0 0xE0 a \<and> byte_in 0xA0 0xBF b
         \<or> byte_in 0xE1 0xEC a \<and> byte_in 0x80 0xBF b
         \<or> byte_in 0xED 0xED a \<and> byte_in 0x80 0x9F b
         \<or> byte_in 0xEE 0xEF a \<and> byte_in 0x80 0xBF b)
        \<and> byte_in 0x80 0xBF c \<and> utf8_valid (d # rest)
      else (byte_in 0xF0 0xF0 a \<and> byte_in 0x90 0xBF b
            \<or> byte_in 0xF1 0xF3 a \<and> byte_in 0x80 0xBF b
            \<or> byte_in 0xF4 0xF4 a \<and> byte_in 0x80 0x8F b)
           \<and> byte_in 0x80 0xBF c \<and> byte_in 0x80 0xBF d \<and> utf8_valid rest)"

definition decode :: "bytes \<Rightarrow> py_error + string" where
  "decode b = (if utf8_valid b then Inr b else Inl UnicodeDecodeError)"

text \<open>
  \<^verbatim>\<open>s.split(sep)\<close> for a separator that is not empty (both call sites pass a literal):
  the pieces between the occurrences of \<open>sep\<close>, found from the left without overlap.
\<close>

function split :: "string \<Rightarrow> string \<Rightarrow> string list" where
  "split sep [] = [[]]"
| "split sep (c # cs) =
     (if sep \<noteq> [] \<and> prefix sep (c # cs) then [] # split sep (drop (length sep) (c # cs))
      else (case split sep cs of
              [] \<Rightarrow> [[c]]
            | w # ws \<Rightarrow> (c # w) # ws))"
  by pat_completeness auto
termination
  by (relation "measure (\<lambda>(sep, s). length s)") auto

text \<open>One pass of the loop over \<^verbatim>\<open>kv_pair_list\<close>.\<close>

definition kv_store :: "param_dict \<Rightarrow> string \<Rightarrow> param_dict" where
  "kv_store output_dict i =
     (case split '' '' i of
        k # v # vs \<Rightarrow> output_dict(k \<mapsto> v)
      | [k] \<Rightarrow> output_dict(k \<mapsto> [])
      | [] \<Rightarrow> output_dict)"

definition crlf :: string where
  "crlf = [CHR 0x0D, CHR 0x0A]"

definition params_to_dict :: "bytes \<Rightarrow> py_error + param_dict" where
  "params_to_dict params =
     (case decode params of
        Inl e \<Rightarrow> Inl e
      | Inr s \<Rightarrow> Inr (foldl kv_store Map.empty (split crlf s)))"


section \<open>The built-in conversions\<close>








subsection \<open>Rounding to binary64\<close>











subsection \<open>float(s)\<close>





section \<open>TomoStreamPVASet\<close>


subsection \<open>parse_image_params\<close>

text \<open>
  The key with the minus is looked up first, then the one with the plus. When neither
  is there the function returns \<^verbatim>\<open>0, 0, 'uint16'\<close> at once. The local \<^verbatim>\<open>dtype\<close> is
  assigned on one path only, when \<^verbatim>\<open>-dtype\<close> is a key and its value is the empty string;
  on every other path the final \<^verbatim>\<open>return\<close> reads a local that has no value.
\<close>

definition either_key :: "param_dict \<Rightarrow> string \<Rightarrow> string \<Rightarrow> string option" where
  "either_key param_dict k1 k2 =
     (if k1 \<in> dom param_dict then param_dict k1
      else if k2 \<in> dom param_dict then param_dict k2
      else None)"

definition parse_image_params :: "param_dict \<Rightarrow> py_error + pyval \<times> pyval \<times> string" where
  "parse_image_params param_dict =
     (case either_key param_dict ''-nrays'' ''+nrays'' of
        None \<Rightarrow> Inr (PyInt 0, PyInt 0, ''uint16'')
      | Some columns \<Rightarrow>
     (case either_key param_dict ''-nslices'' ''+nslices'' of
        None \<Rightarrow> Inr (PyInt 0, PyInt 0, ''uint16'')
      | Some rows \<Rightarrow>
          let dtype =
            (if ''-dtype'' \<in> dom param_dict
             then (if param_dict ''-dtype'' = Some [] then Some ''uint16'' else None)
             else None)
          in (case dtype of
                None \<Rightarrow> Inl UnboundLocalError
              | Some dt \<Rightarrow> Inr (PyStr columns, PyStr rows, dt))))"

subsection \<open>broadcast_theta\<close>




subsection \<open>update_ancillary_pvs\<close>


subsection \<open>broadcast_image\<close>




section \<open>ZMQ_Stream\<close>

text \<open>
  The branch that the \<^verbatim>\<open>if\<close>/\<^verbatim>\<open>elif\<close> chain at the top of the loop body takes:
  \<^verbatim>\<open>is_final\<close>, then \<^verbatim>\<open>is_garbage\<close>, then \<^verbatim>\<open>is_null_frame\<close>, and the frame is broadcast when
  none of them holds.
\<close>

datatype frame_class = Final | Garbage | Null | Valid

definition classify :: "data_obj \<Rightarrow> frame_class" where
  "classify d =
     (if is_final d then Final
      else if is_garbage d then Garbage
      else if is_null_frame d then Null
      else Valid)"












section \<open>Synthetic messages\<close>

text \<open>
  The big-endian serialisation of an unsigned value, most significant byte first. It
  is the inverse direction of \<open>be_u2\<close> and \<open>be_u4\<close>, and serves to state what a buffer
  holds.
\<close>

definition bytes_u2 :: "16 word \<Rightarrow> bytes" where
  "bytes_u2 w = [char_of (unat w div 256), char_of (unat w)]"

definition bytes_u4 :: "32 word \<Rightarrow> bytes" where
  "bytes_u4 w =
     [char_of (unat w div 16777216), char_of (unat w div 65536),
      char_of (unat w div 256), char_of (unat w)]"

text \<open>
  A message with good tags, an image of \<open>w\<close> columns and \<open>h\<close> rows holding \<open>vals\<close>,
  the frame number \<open>n\<close> and the parameter block \<open>ps\<close>. The two four-byte headers are
  zero, the file names empty.
\<close>

definition synthetic :: "32 word \<Rightarrow> 32 word \<Rightarrow> 32 word \<Rightarrow> 16 word list \<Rightarrow> bytes \<Rightarrow> raw_message" where
  "synthetic w h n vals ps =
     \<lparr>msg_start = ''[start]'',
      msg_image = replicate 4 (CHR 0x00) @ concat (map bytes_u2 vals),
      msg_info = replicate 4 (CHR 0x00) @ concat (map bytes_u4 [w, h, 0, 0, n]),
      msg_h5_file = [], msg_tif_file = [], msg_params = ps,
      msg_end = ''[end]''\<rparr>"

text \<open>A line of the parameter block, with its terminator.\<close>

definition line :: "string \<Rightarrow> string" where
  "line s = s @ crlf"

text \<open>A parameter block of the given lines.\<close>

definition param_block :: "string list \<Rightarrow> bytes" where
  "param_block ls = concat (map line ls)"



text \<open>
  Two pieces of a line, to state what \<^verbatim>\<open>params_to_dict\<close> stores for it: the text before
  the first space, and the text between the first space and the second (up to the end
  of the line when there is no second space, and empty when there is no space at all).
\<close>

definition first_token :: "string \<Rightarrow> string" where
  "first_token l = takeWhile (\<lambda>c. c \<noteq> CHR '' '') l"

definition second_token :: "string \<Rightarrow> string" where
  "second_token l =
     takeWhile (\<lambda>c. c \<noteq> CHR '' '') (drop 1 (dropWhile (\<lambda>c. c \<noteq> CHR '' '') l))"

section \<open>Decoding a message\<close>

subsection \<open>The decoders invert the big-endian serialisation\<close>

lemma split_byte: "(n::nat) div (k * 256) * 256 + n div k mod 256 = n div k"
proof -
  have "n div (k * 256) = n div k div 256" by (simp add: div_mult2_eq)
  then show ?thesis by simp
qed

lemma be_u2_bytes_u2: "be_u2 (bytes_u2 w @ rest) = w # be_u2 rest"
proof -
  let ?n = "unat w"
  have "?n < 65536" using unsigned_less [of w] by simp
  then have a: "?n div 256 mod 256 = ?n div 256" by simp
  have b: "?n div 256 * 256 + ?n mod 256 = ?n" by simp
  show ?thesis by (simp add: bytes_u2_def a b)
qed

lemma be_u4_bytes_u4: "be_u4 (bytes_u4 w @ rest) = w # be_u4 rest"
proof -
  let ?n = "unat w"
  have "?n < 4294967296" using unsigned_less [of w] by simp
  then have a: "?n div 16777216 mod 256 = ?n div 16777216" by simp
  have b: "?n div 16777216 * 256 + ?n div 65536 mod 256 = ?n div 65536"
    using split_byte [of ?n 65536] by simp
  have c: "?n div 65536 * 256 + ?n div 256 mod 256 = ?n div 256"
    using split_byte [of ?n 256] by simp
  have d: "?n div 256 * 256 + ?n mod 256 = ?n" by simp
  show ?thesis by (simp add: bytes_u4_def a b c d)
qed

lemma be_u2_concat: "be_u2 (concat (map bytes_u2 vals)) = vals"
  by (induction vals) (simp_all add: be_u2_bytes_u2)

lemma be_u4_concat: "be_u4 (concat (map bytes_u4 ws)) = ws"
  by (induction ws) (simp_all add: be_u4_bytes_u4)

lemma length_bytes_u2: "length (concat (map bytes_u2 vals)) = 2 * length vals"
  by (induction vals) (simp_all add: bytes_u2_def)

lemma length_bytes_u4: "length (concat (map bytes_u4 ws)) = 4 * length ws"
  by (induction ws) (simp_all add: bytes_u4_def)

lemma frombuffer_u2_concat: "frombuffer_u2 (concat (map bytes_u2 vals)) = Inr vals"
  by (simp add: frombuffer_u2_def length_bytes_u2 be_u2_concat)

lemma frombuffer_u4_concat: "frombuffer_u4 (concat (map bytes_u4 ws)) = Inr ws"
  by (simp add: frombuffer_u4_def length_bytes_u4 be_u4_concat)

subsection \<open>read on a well-formed message\<close>

lemma read_well_formed:
  assumes hi: "length hi = 4" and hm: "length hm = 4"
    and info: "msg_info m = hi @ concat (map bytes_u4 [w, h, x, y, n])"
    and image: "msg_image m = hm @ concat (map bytes_u2 vals)"
    and size: "length vals = unat w * unat h"
    and tags: "prefix START_TAG (msg_start m)" "prefix END_TAG (msg_end m)"
  shows "read m = Inr (DataObj
           \<lparr>obj_start = msg_start m,
            obj_image = \<lparr>shape3 = (1, unat h, unat w), data3 = vals\<rparr>,
            obj_info = [w, h, x, y, n],
            obj_h5_file = msg_h5_file m, obj_tif_file = msg_tif_file m,
            obj_params = msg_params m, obj_end = msg_end m\<rparr>)"
proof -
  have i: "frombuffer_u4 (drop 4 (msg_info m)) = Inr [w, h, x, y, n]"
    using hi frombuffer_u4_concat [of "[w, h, x, y, n]"] by (simp add: info)
  have v: "frombuffer_u2 (drop 4 (msg_image m)) = Inr vals"
    using hm frombuffer_u2_concat [of vals] by (simp add: image)
  show ?thesis
    by (simp add: read_def i v item_def tags reshape_def size mult.commute)
qed

text \<open>
  Claim C4. A message with good tags, whose info buffer is a four-byte header followed by
  the big-endian words \<open>w, h, 0, 0, 123\<close> and whose image buffer is a four-byte header
  followed by exactly \<open>w * h\<close> big-endian 16-bit values, is decoded by \<^verbatim>\<open>read\<close> into a
  dictionary whose image has shape \<open>(1, h, w)\<close>; the frame handed on, \<^verbatim>\<open>image[0, ...]\<close>,
  has shape \<open>(h, w)\<close> and holds the values of the buffer in row-major order, and
  \<^verbatim>\<open>info[4]\<close>, the frame number, is 123.
\<close>

theorem read_roundtrip:
  assumes "length hi = 4" and "length hm = 4"
    and "msg_info m = hi @ concat (map bytes_u4 [w, h, 0, 0, 123])"
    and "msg_image m = hm @ concat (map bytes_u2 vals)"
    and "length vals = unat w * unat h"
    and "prefix START_TAG (msg_start m)" and "prefix END_TAG (msg_end m)"
  shows "\<exists>d frame_data.
           read m = Inr (DataObj d)
         \<and> shape3 (obj_image d) = (1, unat h, unat w)
         \<and> first_plane (obj_image d) = Inr frame_data
         \<and> shape2 frame_data = (unat h, unat w)
         \<and> data2 frame_data = vals
         \<and> (\<forall>r c. r < unat h \<and> c < unat w \<longrightarrow> at2 frame_data r c = vals ! (r * unat w + c))
         \<and> item (obj_info d) 4 = Inr 123"
proof -
  have "take (unat h * unat w) vals = vals"
    using assms(5) by (simp add: mult.commute)
  then show ?thesis
    using read_well_formed [OF assms]
    by (simp add: first_plane_def item_def at2_def)
qed

lemma read_synthetic:
  assumes "length vals = unat w * unat h"
  shows "read (synthetic w h n vals ps) = Inr (DataObj
           \<lparr>obj_start = ''[start]'',
            obj_image = \<lparr>shape3 = (1, unat h, unat w), data3 = vals\<rparr>,
            obj_info = [w, h, 0, 0, n],
            obj_h5_file = [], obj_tif_file = [],
            obj_params = ps, obj_end = ''[end]''\<rparr>)"
  using read_well_formed [of "replicate 4 (CHR 0x00)" "replicate 4 (CHR 0x00)"
      "synthetic w h n vals ps" w h 0 0 n vals] assms
  by (simp add: synthetic_def START_TAG_def END_TAG_def)

theorem read_roundtrip_witness:
  "\<exists>d frame_data.
      read (synthetic 3 2 123 [10, 20, 30, 40, 50, 60] []) = Inr (DataObj d)
    \<and> first_plane (obj_image d) = Inr frame_data
    \<and> shape2 frame_data = (2, 3)
    \<and> data2 frame_data = [10, 20, 30, 40, 50, 60]
    \<and> at2 frame_data 1 0 = 40
    \<and> item (obj_info d) 4 = Inr 123"
proof -
  obtain d frame_data where
    "read (synthetic 3 2 123 [10, 20, 30, 40, 50, 60] []) = Inr (DataObj d)"
    "first_plane (obj_image d) = Inr frame_data"
    "shape2 frame_data = (2, 3)"
    "data2 frame_data = [10, 20, 30, 40, 50, 60]"
    "\<forall>r c. r < 2 \<and> c < 3 \<longrightarrow> at2 frame_data r c = [10, 20, 30, 40, 50, 60] ! (r * 3 + c)"
    "item (obj_info d) 4 = Inr 123"
    using read_roundtrip [of "replicate 4 (CHR 0x00)" "replicate 4 (CHR 0x00)"
      "synthetic 3 2 123 [10, 20, 30, 40, 50, 60] []" 3 2 "[10, 20, 30, 40, 50, 60]"]
    by (auto simp add: synthetic_def START_TAG_def END_TAG_def)
  moreover from this have "at2 frame_data 1 0 = 40"
    by (simp add: at2_def)
  ultimately show ?thesis by blast
qed

section \<open>The frame classes\<close>




text \<open>
  Claim C2. A decoded frame on which neither \<^verbatim>\<open>is_final\<close> nor \<^verbatim>\<open>is_garbage\<close> holds takes
  the Null branch exactly when the rows and the columns of its image sum to at most 3,
  and the Valid branch otherwise: 1 row and 2 columns is Null, 2 rows and 2 columns is
  Valid.
\<close>

theorem null_boundary:
  assumes "\<not> is_final d" and "\<not> is_garbage d"
    and "shape3 (obj_image d) = (n, rows, columns)"
  shows "(classify d = Null \<longleftrightarrow> rows + columns \<le> 3)
       \<and> (classify d = Valid \<longleftrightarrow> 3 < rows + columns)
       \<and> (rows = 1 \<and> columns = 2 \<longrightarrow> classify d = Null)
       \<and> (rows = 2 \<and> columns = 2 \<longrightarrow> classify d = Valid)"
  using assms by (auto simp add: classify_def is_null_frame_def)


theorem null_boundary_witness:
  "\<exists>d1 d2.
      read (synthetic 2 1 7 [0, 0] ''-image_key 0'') = Inr (DataObj d1)
    \<and> read (synthetic 2 2 7 [0, 0, 0, 0] ''-image_key 0'') = Inr (DataObj d2)
    \<and> \<not> is_final d1 \<and> \<not> is_garbage d1 \<and> shape3 (obj_image d1) = (1, 1, 2)
    \<and> \<not> is_final d2 \<and> \<not> is_garbage d2 \<and> shape3 (obj_image d2) = (1, 2, 2)
    \<and> classify d1 = Null \<and> classify d2 = Valid"
proof -
  obtain d1 where d1: "read (synthetic 2 1 7 [0, 0] ''-image_key 0'') = Inr (DataObj d1)"
    "obj_params d1 = ''-image_key 0''" "shape3 (obj_image d1) = (1, 1, 2)"
    using read_synthetic [of "[0, 0]" 2 1 7 "''-image_key 0''"] by simp
  obtain d2 where d2: "read (synthetic 2 2 7 [0, 0, 0, 0] ''-image_key 0'') = Inr (DataObj d2)"
    "obj_params d2 = ''-image_key 0''" "shape3 (obj_image d2) = (1, 2, 2)"
    using read_synthetic [of "[0, 0, 0, 0]" 2 2 7 "''-image_key 0''"] by simp
  have f1: "\<not> is_final d1" and g1: "\<not> is_garbage d1"
    by (simp_all add: is_final_def is_garbage_def d1)
  have f2: "\<not> is_final d2" and g2: "\<not> is_garbage d2"
    by (simp_all add: is_final_def is_garbage_def d2)
  have "classify d1 = Null"
    using null_boundary [OF f1 g1 d1(3)] by simp
  moreover have "classify d2 = Valid"
    using null_boundary [OF f2 g2 d2(3)] by simp
  ultimately show ?thesis
    using d1 d2 f1 g1 f2 g2 by blast
qed

section \<open>Messages with bad tags\<close>






section \<open>The conversions on the values of the examples\<close>







lemmas params_defs = params_to_dict_def param_block_def line_def crlf_def decode_def byte_in_def
  kv_store_def

lemma params_to_dict_example: "params_to_dict (param_block [''-image_key 1'', ''-nangles 5'', ''-arange 180'']) =
   Inr [''-image_key'' \<mapsto> ''1'', ''-nangles'' \<mapsto> ''5'', ''-arange'' \<mapsto> ''180'', [] \<mapsto> []]"
  by (simp add: params_defs)

section \<open>The dispatcher\<close>

subsection \<open>The calls that each part makes\<close>




subsection \<open>parse_image_params\<close>

lemma either_key_Some:
  "k1 \<in> dom pd \<or> k2 \<in> dom pd \<Longrightarrow> \<exists>v. either_key pd k1 k2 = Some v"
  by (auto simp add: either_key_def)


text \<open>
  Claim C10. For a dictionary that has a rays key and a slices key, \<^verbatim>\<open>parse_image_params\<close>
  returns a triple, with the datatype \<^verbatim>\<open>uint16\<close>, only when \<^verbatim>\<open>-dtype\<close> is a key whose value
  is the empty string. When \<^verbatim>\<open>-dtype\<close> is absent, or has any other value, the local
  \<^verbatim>\<open>dtype\<close> is read before it was assigned and the function raises \<^verbatim>\<open>UnboundLocalError\<close>.
\<close>

theorem dtype_read_before_assignment:
  assumes "''-nrays'' \<in> dom pd \<or> ''+nrays'' \<in> dom pd"
    and "''-nslices'' \<in> dom pd \<or> ''+nslices'' \<in> dom pd"
  shows "(pd ''-dtype'' = Some [] \<longrightarrow>
            (\<exists>columns rows. parse_image_params pd = Inr (PyStr columns, PyStr rows, ''uint16'')))
       \<and> (pd ''-dtype'' \<noteq> Some [] \<longrightarrow> parse_image_params pd = Inl UnboundLocalError)"
proof -
  obtain c where c: "either_key pd ''-nrays'' ''+nrays'' = Some c"
    using either_key_Some [OF assms(1)] by blast
  obtain r where r: "either_key pd ''-nslices'' ''+nslices'' = Some r"
    using either_key_Some [OF assms(2)] by blast
  show ?thesis
    by (auto simp add: parse_image_params_def c r)
qed

theorem dtype_read_before_assignment_witness:
  "parse_image_params [''-nrays'' \<mapsto> ''2560'', ''+nslices'' \<mapsto> ''2160'', ''-dtype'' \<mapsto> []]
     = Inr (PyStr ''2560'', PyStr ''2160'', ''uint16'')
   \<and> parse_image_params [''-nrays'' \<mapsto> ''2560'', ''+nslices'' \<mapsto> ''2160'', ''-dtype'' \<mapsto> ''uint16'']
     = Inl UnboundLocalError
   \<and> parse_image_params [''-nrays'' \<mapsto> ''2560'', ''+nslices'' \<mapsto> ''2160'']
     = Inl UnboundLocalError"
proof -
  let ?a = "[''-nrays'' \<mapsto> ''2560'', ''+nslices'' \<mapsto> ''2160'', ''-dtype'' \<mapsto> []]"
  let ?b = "[''-nrays'' \<mapsto> ''2560'', ''+nslices'' \<mapsto> ''2160'', ''-dtype'' \<mapsto> ''uint16'']"
  let ?c = "[''-nrays'' \<mapsto> ''2560'', ''+nslices'' \<mapsto> ''2160'']"
  have "\<exists>columns rows. parse_image_params ?a = Inr (PyStr columns, PyStr rows, ''uint16'')"
    using dtype_read_before_assignment [of ?a] by simp
  then have "parse_image_params ?a = Inr (PyStr ''2560'', PyStr ''2160'', ''uint16'')"
    by (auto simp add: parse_image_params_def either_key_def)
  moreover have "parse_image_params ?b = Inl UnboundLocalError"
    using dtype_read_before_assignment [of ?b] by simp
  moreover have "parse_image_params ?c = Inl UnboundLocalError"
    using dtype_read_before_assignment [of ?c] by simp
  ultimately show ?thesis by blast
qed

subsection \<open>update_ancillary_pvs\<close>




subsection \<open>broadcast_image\<close>






section \<open>Dispatch of a valid frame\<close>


subsection \<open>A frame without shape keys\<close>





subsection \<open>Routing by the image key\<close>









subsection \<open>The metadata writes\<close>





section \<open>The parameter block\<close>

text \<open>Splitting on one character: the text before its first occurrence, then the rest.\<close>

lemma split_single:
  "split [s] l =
     takeWhile (\<lambda>c. c \<noteq> s) l #
       (if s \<in> set l then split [s] (drop 1 (dropWhile (\<lambda>c. c \<noteq> s) l)) else [])"
proof (induction l)
  case Nil
  then show ?case by simp
next
  case (Cons c cs)
  show ?case
  proof (cases "c = s")
    case True
    then show ?thesis by simp
  next
    case False
    then show ?thesis
      by (subst split.simps) (simp add: Cons.IH)
  qed
qed

text \<open>What one pass of the loop of \<^verbatim>\<open>params_to_dict\<close> stores.\<close>

lemma kv_store_tokens: "kv_store m l = m(first_token l \<mapsto> second_token l)"
proof (cases "CHR '' '' \<in> set l")
  case True
  have "split '' '' l = first_token l # split '' '' (drop 1 (dropWhile (\<lambda>c. c \<noteq> CHR '' '') l))"
    using True by (subst split_single) (simp add: first_token_def)
  also have "split '' '' (drop 1 (dropWhile (\<lambda>c. c \<noteq> CHR '' '') l)) =
      second_token l #
        (if CHR '' '' \<in> set (drop 1 (dropWhile (\<lambda>c. c \<noteq> CHR '' '') l))
         then split '' '' (drop 1 (dropWhile (\<lambda>c. c \<noteq> CHR '' '')
                (drop 1 (dropWhile (\<lambda>c. c \<noteq> CHR '' '') l))))
         else [])"
    by (subst split_single) (simp add: second_token_def)
  finally show ?thesis
    by (simp add: kv_store_def)
next
  case False
  then have d: "dropWhile (\<lambda>c. c \<noteq> CHR '' '') l = []"
    by auto
  have "split '' '' l = [first_token l]"
    using False by (subst split_single) (simp add: first_token_def)
  then show ?thesis
    by (simp add: kv_store_def second_token_def d)
qed

lemma foldl_kv_store:
  "foldl kv_store m ls = m ++ map_of (rev (map (\<lambda>l. (first_token l, second_token l)) ls))"
proof (induction ls arbitrary: m)
  case Nil
  then show ?case by simp
next
  case (Cons l ls)
  let ?f = "\<lambda>l. (first_token l, second_token l)"
  have "foldl kv_store m (l # ls) = foldl kv_store (kv_store m l) ls"
    by simp
  also have "\<dots> = kv_store m l ++ map_of (rev (map ?f ls))"
    by (rule Cons.IH)
  also have "kv_store m l = m ++ map_of [?f l]"
    by (simp add: kv_store_tokens)
  also have "m ++ map_of [?f l] ++ map_of (rev (map ?f ls)) =
      m ++ map_of (rev (map ?f ls) @ [?f l])"
    by (simp only: map_of_append map_add_assoc)
  finally show ?case
    by simp
qed

lemma takeWhile_until: "s \<notin> set k \<Longrightarrow> takeWhile (\<lambda>c. c \<noteq> s) (k @ s # r) = k"
  by (induction k) auto

lemma dropWhile_until: "s \<notin> set k \<Longrightarrow> dropWhile (\<lambda>c. c \<noteq> s) (k @ s # r) = s # r"
  by (induction k) auto

text \<open>
  A line with two spaces: \<^verbatim>\<open>i.split(' ')\<close> has three pieces and \<^verbatim>\<open>kv_split[1]\<close> is the
  second of them, so the value stored is \<^verbatim>\<open>2560\<close> and not the rest of the line.
\<close>

theorem params_value_counterexample:
  "\<exists>d. params_to_dict ''-nrays 2560 px'' = Inr d
     \<and> d ''-nrays'' = Some ''2560'' \<and> d ''-nrays'' \<noteq> Some ''2560 px''"
  by (simp add: params_to_dict_def crlf_def decode_def byte_in_def kv_store_def)

text \<open>
  Claim C5, as the code has it. On bytes that decode, \<^verbatim>\<open>params_to_dict\<close> splits the text
  on CRLF into lines and maps, for every line, the text before the first space to the
  text between the first space and the second; where a key occurs on several lines the
  last one wins. For a line without a space that is the whole line mapped to the empty
  string, for a line with one space the key mapped to all that follows the space, and
  for a line with more spaces the key mapped to the second piece only.
\<close>

theorem params_to_dict_tokens:
  assumes "utf8_valid params"
  shows "params_to_dict params =
           Inr (map_of (rev (map (\<lambda>l. (first_token l, second_token l)) (split crlf params))))
       \<and> (\<forall>l. CHR '' '' \<notin> set l \<longrightarrow> first_token l = l \<and> second_token l = [])
       \<and> (\<forall>k v. CHR '' '' \<notin> set k \<and> CHR '' '' \<notin> set v \<longrightarrow>
             first_token (k @ '' '' @ v) = k \<and> second_token (k @ '' '' @ v) = v)
       \<and> (\<forall>k v r. CHR '' '' \<notin> set k \<and> CHR '' '' \<notin> set v \<longrightarrow>
             first_token (k @ '' '' @ v @ '' '' @ r) = k
           \<and> second_token (k @ '' '' @ v @ '' '' @ r) = v)"
proof -
  have 1: "params_to_dict params =
      Inr (map_of (rev (map (\<lambda>l. (first_token l, second_token l)) (split crlf params))))"
    using assms by (simp add: params_to_dict_def decode_def foldl_kv_store)
  have 2: "\<forall>l. CHR '' '' \<notin> set l \<longrightarrow> first_token l = l \<and> second_token l = []"
  proof (intro allI impI)
    fix l :: string
    assume "CHR '' '' \<notin> set l"
    then have tl: "takeWhile (\<lambda>c. c \<noteq> CHR '' '') l = l"
      and dl: "dropWhile (\<lambda>c. c \<noteq> CHR '' '') l = []"
      by auto
    show "first_token l = l \<and> second_token l = []"
      unfolding first_token_def second_token_def tl dl by simp
  qed
  note t = takeWhile_until [of "CHR '' ''"] and d = dropWhile_until [of "CHR '' ''"]
  have 3: "\<forall>k v. CHR '' '' \<notin> set k \<and> CHR '' '' \<notin> set v \<longrightarrow>
      first_token (k @ '' '' @ v) = k \<and> second_token (k @ '' '' @ v) = v"
    by (auto simp add: first_token_def second_token_def t d)
  have 4: "\<forall>k v r. CHR '' '' \<notin> set k \<and> CHR '' '' \<notin> set v \<longrightarrow>
      first_token (k @ '' '' @ v @ '' '' @ r) = k \<and> second_token (k @ '' '' @ v @ '' '' @ r) = v"
    by (simp add: first_token_def second_token_def t d)
  show ?thesis
    using 1 2 3 4 by blast
qed

theorem params_to_dict_tokens_witness:
  "utf8_valid (param_block [''-a 1'', ''-b'', ''-a 2 3''])
   \<and> (\<exists>d. params_to_dict (param_block [''-a 1'', ''-b'', ''-a 2 3'']) = Inr d
        \<and> d ''-a'' = Some ''2'' \<and> d ''-b'' = Some [])"
proof -
  let ?ps = "param_block [''-a 1'', ''-b'', ''-a 2 3'']"
  have v: "utf8_valid ?ps"
    by (simp add: param_block_def line_def crlf_def byte_in_def)
  have s: "split crlf ?ps = [''-a 1'', ''-b'', ''-a 2 3'', []]"
    by (simp add: param_block_def line_def crlf_def)
  have "params_to_dict ?ps =
      Inr (map_of (rev (map (\<lambda>l. (first_token l, second_token l)) (split crlf ?ps))))"
    using params_to_dict_tokens [OF v] by blast
  then show ?thesis
    using v by (simp add: s first_token_def second_token_def)
qed

end
